theory Spec2Isabelle
  imports Complex_Main "HOL-Library.Stream"
begin

section \<open>Data model of \<^verbatim>\<open>src/src/App.tsx\<close>\<close>

text \<open>
  A JavaScript \<^verbatim>\<open>number\<close> is modelled as a real number: every value the program
  handles is finite (positions are clamped into the canvas, velocities have magnitude
  at most one). The definitions of the first sections take \<^verbatim>\<open>+\<close>, \<^verbatim>\<open>-\<close> and \<^verbatim>\<open>*\<close>
  exactly; this serves the properties that are about order and sign. Where the rounding
  of a result matters (the free move of a ball, the index of the color picker), the
  section on the number operations has the same code with its operations as
  parameters, and the double format and rounding to nearest written out.
  The \<^verbatim>\<open>id\<close> of a ball is the loop counter, a natural number. A \<^verbatim>\<open>color\<close> is
  what an array read returns: \<open>Some\<close> string, or \<open>None\<close> for \<^verbatim>\<open>undefined\<close>.
\<close>

record Ball =
  id' :: nat
  x :: real
  y :: real
  vx :: real
  vy :: real
  radius :: real
  color :: "string option"

definition BALL_COUNT :: nat where
  "BALL_COUNT = 20"

definition BALL_RADIUS :: real where
  "BALL_RADIUS = 12"

definition SPEED_MULTIPLIER :: real where
  "SPEED_MULTIPLIER = 2"

text \<open>The two attributes of the canvas element that the program reads.\<close>

record canvas =
  width :: real
  height :: real

text \<open>
  The mutable cells of the component: \<^verbatim>\<open>canvasRef.current\<close> (\<open>None\<close> while no canvas is
  mounted), \<^verbatim>\<open>ballsRef.current\<close> and the \<^verbatim>\<open>ballCount\<close> state.
\<close>

record app_state =
  canvasRef :: "canvas option"
  ballsRef :: "Ball list"
  ballCount :: nat

section \<open>Random draws\<close>

text \<open>
  \<^verbatim>\<open>Math.random()\<close> is an effect: the generator is a stream of the numbers it is going
  to return, each call takes the head and leaves the tail. The language guarantees
  that every draw lies in \<open>[0, 1)\<close>; theorems that need it assume \<open>unit_draws\<close>.
\<close>

type_synonym rng = "real stream"

definition Math_random :: "rng \<Rightarrow> real \<times> rng" where
  "Math_random g = (shd g, stl g)"

definition unit_draws :: "rng \<Rightarrow> bool" where
  "unit_draws g = (\<forall>n. 0 \<le> g !! n \<and> g !! n < 1)"

section \<open>The color picker (lines 26-32)\<close>

definition colors :: "string list" where
  "colors =
    [''#FF6B6B'', ''#4ECDC4'', ''#45B7D1'', ''#96CEB4'', ''#FECA57'',
     ''#FF9FF3'', ''#54A0FF'', ''#5F27CD'', ''#00D2D3'', ''#FF9F43'']"

text \<open>An array read \<^verbatim>\<open>xs[k]\<close> at an integral number: out of range it is \<^verbatim>\<open>undefined\<close>.\<close>

definition js_index :: "'a list \<Rightarrow> int \<Rightarrow> 'a option" where
  "js_index xs k = (if 0 \<le> k \<and> k < int (length xs) then Some (xs ! nat k) else None)"

definition getRandomColor :: "rng \<Rightarrow> string option \<times> rng" where
  "getRandomColor g =
    (let (r, g') = Math_random g
     in (js_index colors \<lfloor>r * real (length colors)\<rfloor>, g'))"

section \<open>Initialization (lines 35-55)\<close>

text \<open>
  The object literal of lines 42-50. Its properties are evaluated in source order, so
  the five draws are taken for \<^verbatim>\<open>x\<close>, \<^verbatim>\<open>y\<close>, \<^verbatim>\<open>vx\<close>, \<^verbatim>\<open>vy\<close> and the color, in this order.
\<close>

definition newBall :: "nat \<Rightarrow> canvas \<Rightarrow> rng \<Rightarrow> Ball \<times> rng" where
  "newBall i cv g0 =
    (let (r1, g1) = Math_random g0;
         (r2, g2) = Math_random g1;
         (r3, g3) = Math_random g2;
         (r4, g4) = Math_random g3;
         (col, g5) = getRandomColor g4
     in (\<lparr> id' = i,
           x = r1 * (width cv - BALL_RADIUS * 2) + BALL_RADIUS,
           y = r2 * (height cv - BALL_RADIUS * 2) + BALL_RADIUS,
           vx = (r3 - 0.5) * SPEED_MULTIPLIER,
           vy = (r4 - 0.5) * SPEED_MULTIPLIER,
           radius = BALL_RADIUS,
           color = col \<rparr>, g5))"

text \<open>The \<^verbatim>\<open>for\<close> loop of lines 41-51: \<open>i\<close> is the counter, \<open>balls\<close> the array built so far.\<close>

function initLoop :: "nat \<Rightarrow> canvas \<Rightarrow> Ball list \<Rightarrow> rng \<Rightarrow> Ball list \<times> rng" where
  "initLoop i cv balls g =
    (if i < BALL_COUNT
     then (let (b, g') = newBall i cv g in initLoop (i + 1) cv (balls @ [b]) g')
     else (balls, g))"
  by pat_completeness auto
termination
  by (relation "measure (\<lambda>(i, cv, balls, g). BALL_COUNT - i)") auto

definition initializeBalls :: "app_state \<Rightarrow> rng \<Rightarrow> app_state \<times> rng" where
  "initializeBalls st g =
    (case canvasRef st of
       None \<Rightarrow> (st, g)
     | Some cv \<Rightarrow>
         (let (balls, g') = initLoop 0 cv [] g
          in (st\<lparr> ballsRef := balls, ballCount := length balls \<rparr>, g')))"

section \<open>The simulation step (lines 58-78)\<close>

text \<open>
  The callback of \<^verbatim>\<open>forEach\<close>, statement by statement: each \<open>b\<close> below is the ball after
  one more assignment, and every read is of the ball as it is at that point.
\<close>

definition updateBall :: "canvas \<Rightarrow> Ball \<Rightarrow> Ball" where
  "updateBall cv b0 =
    (let b1 = b0\<lparr> x := x b0 + vx b0 \<rparr>;
         b2 = b1\<lparr> y := y b1 + vy b1 \<rparr>;
         b4 = (if x b2 \<le> radius b2 \<or> x b2 \<ge> width cv - radius b2
               then (let b3 = b2\<lparr> vx := - vx b2 \<rparr>
                     in b3\<lparr> x := max (radius b3) (min (width cv - radius b3) (x b3)) \<rparr>)
               else b2);
         b6 = (if y b4 \<le> radius b4 \<or> y b4 \<ge> height cv - radius b4
               then (let b5 = b4\<lparr> vy := - vy b4 \<rparr>
                     in b5\<lparr> y := max (radius b5) (min (height cv - radius b5) (y b5)) \<rparr>)
               else b4)
     in b6)"

text \<open>
  The balls are distinct objects (each one a fresh literal pushed by the loop above), so
  mutating them in place one after the other is a map over the array.
\<close>

definition updateBalls :: "app_state \<Rightarrow> app_state" where
  "updateBalls st =
    (case canvasRef st of
       None \<Rightarrow> st
     | Some cv \<Rightarrow> st\<lparr> ballsRef := map (updateBall cv) (ballsRef st) \<rparr>)"

section \<open>The step as the specification words it\<close>

text \<open>
  Clamping a number into the interval from \<open>lo\<close> to \<open>hi\<close>. On a non-empty interval it
  is the point of the interval nearest to the number (lemma \<open>clamp_nearest\<close>).
\<close>

definition clamp :: "real \<Rightarrow> real \<Rightarrow> real \<Rightarrow> real" where
  "clamp lo hi v = max lo (min hi v)"

text \<open>
  The algorithm of the specification, in closed form over the ball before the step:
  \<open>nx\<close> and \<open>ny\<close> are the incremented coordinates, and an axis on which the incremented
  coordinate is at most \<open>radius\<close> or at least the extent minus \<open>radius\<close> has its velocity
  negated and its coordinate clamped.
\<close>

definition spec_step :: "real \<Rightarrow> real \<Rightarrow> Ball \<Rightarrow> Ball" where
  "spec_step w h b =
    (let nx = x b + vx b;
         ny = y b + vy b;
         hit_x = (nx \<le> radius b \<or> nx \<ge> w - radius b);
         hit_y = (ny \<le> radius b \<or> ny \<ge> h - radius b)
     in b\<lparr> x := (if hit_x then clamp (radius b) (w - radius b) nx else nx),
           y := (if hit_y then clamp (radius b) (h - radius b) ny else ny),
           vx := (if hit_x then - vx b else vx b),
           vy := (if hit_y then - vy b else vy b) \<rparr>)"

section \<open>The number operations made explicit\<close>

text \<open>
  The code's \<^verbatim>\<open>+\<close>, \<^verbatim>\<open>-\<close> and \<^verbatim>\<open>*\<close> return doubles: the exact result, rounded. They are
  the three fields of \<open>num_ops\<close>, and \<open>exact_ops\<close> is the arithmetic without rounding.
\<close>

record num_ops =
  fadd :: "real \<Rightarrow> real \<Rightarrow> real"
  fsub :: "real \<Rightarrow> real \<Rightarrow> real"
  fmul :: "real \<Rightarrow> real \<Rightarrow> real"

definition exact_ops :: num_ops where
  "exact_ops = \<lparr> fadd = (+), fsub = (-), fmul = (*) \<rparr>"

text \<open>
  The finite doubles are the numbers \<open>\<plusminus> m * 2 ^ e\<close> with \<open>m < 2 ^ 53\<close> and
  \<open>-1074 \<le> e \<le> 971\<close>; below, \<open>k\<close> is \<open>e + 1074\<close>. A nearest double of a real number is a
  double at the least distance from it; at a tie there are two, and the code's
  operations return one of them.
\<close>

definition is_double :: "real \<Rightarrow> bool" where
  "is_double v = (\<exists>m k. m < (2::nat) ^ 53 \<and> k \<le> (2045::nat) \<and> \<bar>v\<bar> * 2 ^ 1074 = real m * 2 ^ k)"

definition nearest_double :: "real \<Rightarrow> real \<Rightarrow> bool" where
  "nearest_double p d = (is_double d \<and> (\<forall>d'. is_double d' \<longrightarrow> \<bar>d - p\<bar> \<le> \<bar>d' - p\<bar>))"

text \<open>
  What the language guarantees of \<^verbatim>\<open>Math.random()\<close>: every draw is a double in
  \<open>[0, 1)\<close>. And what it guarantees of line 31: the product of a draw and the length of
  the palette is a nearest double of the exact product.
\<close>

definition double_draws :: "rng \<Rightarrow> bool" where
  "double_draws g = (\<forall>n. is_double (g !! n) \<and> 0 \<le> g !! n \<and> g !! n < 1)"

definition rounds_color_product :: "num_ops \<Rightarrow> real \<Rightarrow> bool" where
  "rounds_color_product ops r =
    nearest_double (r * real (length colors)) (fmul ops r (real (length colors)))"

text \<open>
  The functions of the program once more, line by line as above, with every
  \<^verbatim>\<open>+\<close>, \<^verbatim>\<open>-\<close> and \<^verbatim>\<open>*\<close> of the source taken from \<open>ops\<close>. Comparison, negation,
  \<^verbatim>\<open>Math.max\<close>, \<^verbatim>\<open>Math.min\<close> and \<^verbatim>\<open>Math.floor\<close> do not round.
\<close>

definition getRandomColor_fp :: "num_ops \<Rightarrow> rng \<Rightarrow> string option \<times> rng" where
  "getRandomColor_fp ops g =
    (let (r, g') = Math_random g
     in (js_index colors \<lfloor>fmul ops r (real (length colors))\<rfloor>, g'))"

definition newBall_fp :: "num_ops \<Rightarrow> nat \<Rightarrow> canvas \<Rightarrow> rng \<Rightarrow> Ball \<times> rng" where
  "newBall_fp ops i cv g0 =
    (let (r1, g1) = Math_random g0;
         (r2, g2) = Math_random g1;
         (r3, g3) = Math_random g2;
         (r4, g4) = Math_random g3;
         (col, g5) = getRandomColor_fp ops g4
     in (\<lparr> id' = i,
           x = fadd ops (fmul ops r1 (fsub ops (width cv) (fmul ops BALL_RADIUS 2))) BALL_RADIUS,
           y = fadd ops (fmul ops r2 (fsub ops (height cv) (fmul ops BALL_RADIUS 2))) BALL_RADIUS,
           vx = fmul ops (fsub ops r3 0.5) SPEED_MULTIPLIER,
           vy = fmul ops (fsub ops r4 0.5) SPEED_MULTIPLIER,
           radius = BALL_RADIUS,
           color = col \<rparr>, g5))"

function initLoop_fp ::
  "num_ops \<Rightarrow> nat \<Rightarrow> canvas \<Rightarrow> Ball list \<Rightarrow> rng \<Rightarrow> Ball list \<times> rng" where
  "initLoop_fp ops i cv balls g =
    (if i < BALL_COUNT
     then (let (b, g') = newBall_fp ops i cv g in initLoop_fp ops (i + 1) cv (balls @ [b]) g')
     else (balls, g))"
  by pat_completeness auto
termination
  by (relation "measure (\<lambda>(ops, i, cv, balls, g). BALL_COUNT - i)") auto

definition initializeBalls_fp :: "num_ops \<Rightarrow> app_state \<Rightarrow> rng \<Rightarrow> app_state \<times> rng" where
  "initializeBalls_fp ops st g =
    (case canvasRef st of
       None \<Rightarrow> (st, g)
     | Some cv \<Rightarrow>
         (let (balls, g') = initLoop_fp ops 0 cv [] g
          in (st\<lparr> ballsRef := balls, ballCount := length balls \<rparr>, g')))"

definition updateBall_fp :: "num_ops \<Rightarrow> canvas \<Rightarrow> Ball \<Rightarrow> Ball" where
  "updateBall_fp ops cv b0 =
    (let b1 = b0\<lparr> x := fadd ops (x b0) (vx b0) \<rparr>;
         b2 = b1\<lparr> y := fadd ops (y b1) (vy b1) \<rparr>;
         b4 = (if x b2 \<le> radius b2 \<or> x b2 \<ge> fsub ops (width cv) (radius b2)
               then (let b3 = b2\<lparr> vx := - vx b2 \<rparr>
                     in b3\<lparr> x := max (radius b3) (min (fsub ops (width cv) (radius b3)) (x b3)) \<rparr>)
               else b2);
         b6 = (if y b4 \<le> radius b4 \<or> y b4 \<ge> fsub ops (height cv) (radius b4)
               then (let b5 = b4\<lparr> vy := - vy b4 \<rparr>
                     in b5\<lparr> y := max (radius b5) (min (fsub ops (height cv) (radius b5)) (y b5)) \<rparr>)
               else b4)
     in b6)"

definition updateBalls_fp :: "num_ops \<Rightarrow> app_state \<Rightarrow> app_state" where
  "updateBalls_fp ops st =
    (case canvasRef st of
       None \<Rightarrow> st
     | Some cv \<Rightarrow> st\<lparr> ballsRef := map (updateBall_fp ops cv) (ballsRef st) \<rparr>)"

text \<open>
  Two operations that round at one place each, as the code's do there. Adding at most
  \<open>2 ^ -46\<close>, half the distance between neighbouring doubles, to \<open>200\<close> returns \<open>200\<close>. The
  product \<open>7 - 2 ^ -51\<close> lies half-way between the doubles \<open>7 - 2 ^ -50\<close> and \<open>7\<close> and
  is rounded to \<open>7\<close>.
\<close>

definition absorbing_add :: "real \<Rightarrow> real \<Rightarrow> real" where
  "absorbing_add a b = (if a = 200 \<and> \<bar>b\<bar> \<le> 1 / 2 ^ 46 then a else a + b)"

definition half_way_mul :: "real \<Rightarrow> real \<Rightarrow> real" where
  "half_way_mul a b = (if a * b = 7 - 1 / 2 ^ 51 then 7 else a * b)"

section \<open>Auxiliary facts\<close>

declare initLoop.simps [simp del]

declare initLoop_fp.simps [simp del]

lemma clamp_nearest:
  "lo \<le> hi \<Longrightarrow> clamp lo hi v = (if v < lo then lo else if hi < v then hi else v)"
  by (simp add: clamp_def max_def min_def)

lemma updateBall_frame:
  "id' (updateBall cv b) = id' b"
  "radius (updateBall cv b) = radius b"
  "color (updateBall cv b) = color b"
  by (simp_all add: updateBall_def Let_def)

lemma updateBall_x:
  "x (updateBall cv b) =
    (if x b + vx b \<le> radius b \<or> x b + vx b \<ge> width cv - radius b
     then max (radius b) (min (width cv - radius b) (x b + vx b))
     else x b + vx b)"
  by (simp add: updateBall_def Let_def)

lemma updateBall_vx:
  "vx (updateBall cv b) =
    (if x b + vx b \<le> radius b \<or> x b + vx b \<ge> width cv - radius b then - vx b else vx b)"
  by (simp add: updateBall_def Let_def)

lemma updateBall_y:
  "y (updateBall cv b) =
    (if y b + vy b \<le> radius b \<or> y b + vy b \<ge> height cv - radius b
     then max (radius b) (min (height cv - radius b) (y b + vy b))
     else y b + vy b)"
  by (simp add: updateBall_def Let_def)

lemma updateBall_vy:
  "vy (updateBall cv b) =
    (if y b + vy b \<le> radius b \<or> y b + vy b \<ge> height cv - radius b then - vy b else vy b)"
  by (simp add: updateBall_def Let_def)

lemma updateBalls_Some:
  "canvasRef st = Some cv \<Longrightarrow> ballsRef (updateBalls st) = map (updateBall cv) (ballsRef st)"
  by (simp add: updateBalls_def)

lemma updateBalls_nth:
  assumes "canvasRef st = Some cv" and "i < length (ballsRef st)"
  shows "ballsRef (updateBalls st) ! i = updateBall cv (ballsRef st ! i)"
  using assms by (simp add: updateBalls_Some)

text \<open>One ball takes five draws.\<close>

lemma newBall_rng: "snd (newBall i cv g) = sdrop 5 g"
  by (simp add: newBall_def getRandomColor_def Math_random_def Let_def eval_nat_numeral)

lemma newBall_fields:
  "id' (fst (newBall i cv g)) = i"
  "x (fst (newBall i cv g)) = g !! 0 * (width cv - BALL_RADIUS * 2) + BALL_RADIUS"
  "y (fst (newBall i cv g)) = g !! 1 * (height cv - BALL_RADIUS * 2) + BALL_RADIUS"
  "vx (fst (newBall i cv g)) = (g !! 2 - 0.5) * SPEED_MULTIPLIER"
  "vy (fst (newBall i cv g)) = (g !! 3 - 0.5) * SPEED_MULTIPLIER"
  "radius (fst (newBall i cv g)) = BALL_RADIUS"
  "color (fst (newBall i cv g)) = fst (getRandomColor (sdrop 4 g))"
  by (simp_all add: newBall_def getRandomColor_def Math_random_def Let_def eval_nat_numeral)

text \<open>
  The loop, solved: started at counter \<open>i\<close> it appends the balls \<open>i, \<dots>, BALL_COUNT - 1\<close>,
  ball \<open>j\<close> built from the draws that follow the \<open>5 * (j - i)\<close> already taken.
\<close>

lemma initLoop_eq:
  "initLoop i cv balls g =
    (balls @ map (\<lambda>j. fst (newBall j cv (sdrop (5 * (j - i)) g))) [i..<BALL_COUNT],
     sdrop (5 * (BALL_COUNT - i)) g)"
proof (induction i cv balls g rule: initLoop.induct)
  case (1 i cv balls g)
  show ?case
  proof (cases "i < BALL_COUNT")
    case False
    then show ?thesis by (subst initLoop.simps) simp
  next
    case True
    obtain b g' where bg: "newBall i cv g = (b, g')"
      by (cases "newBall i cv g")
    have g': "g' = sdrop 5 g"
      using newBall_rng [of i cv g] bg by simp
    have b: "b = fst (newBall i cv g)"
      using bg by simp
    have shift: "sdrop (5 * (j - Suc i)) g' = sdrop (5 * (j - i)) g"
      if "j \<in> set [Suc i..<BALL_COUNT]" for j
    proof -
      from that have "i < j" by simp
      then have "5 + 5 * (j - Suc i) = 5 * (j - i)" by simp
      then show ?thesis unfolding g' by (simp only: sdrop_add)
    qed
    have rest: "sdrop (5 * (BALL_COUNT - Suc i)) g' = sdrop (5 * (BALL_COUNT - i)) g"
    proof -
      from True have "5 + 5 * (BALL_COUNT - Suc i) = 5 * (BALL_COUNT - i)" by simp
      then show ?thesis unfolding g' by (simp only: sdrop_add)
    qed
    have "initLoop i cv balls g = initLoop (i + 1) cv (balls @ [b]) g'"
      using True bg by (subst initLoop.simps) simp
    also have "\<dots> =
        ((balls @ [b]) @
           map (\<lambda>j. fst (newBall j cv (sdrop (5 * (j - (i + 1))) g'))) [i + 1..<BALL_COUNT],
         sdrop (5 * (BALL_COUNT - (i + 1))) g')"
      using "1.IH" [OF True bg [symmetric] refl] .
    also have "map (\<lambda>j. fst (newBall j cv (sdrop (5 * (j - (i + 1))) g'))) [i + 1..<BALL_COUNT]
        = map (\<lambda>j. fst (newBall j cv (sdrop (5 * (j - i)) g))) [Suc i..<BALL_COUNT]"
      by (rule map_cong) (simp_all add: shift)
    finally show ?thesis
      using True by (simp add: rest b upt_conv_Cons)
  qed
qed

lemma initializeBalls_Some:
  assumes "canvasRef st = Some cv"
  shows "initializeBalls st g =
    (st\<lparr> ballsRef := map (\<lambda>j. fst (newBall j cv (sdrop (5 * j) g))) [0..<BALL_COUNT],
         ballCount := BALL_COUNT \<rparr>,
     sdrop (5 * BALL_COUNT) g)"
  using assms by (simp add: initializeBalls_def initLoop_eq)

lemma initializeBalls_nth:
  assumes "canvasRef st = Some cv" and "i < BALL_COUNT"
  shows "ballsRef (fst (initializeBalls st g)) ! i = fst (newBall i cv (sdrop (5 * i) g))"
  using assms by (simp add: initializeBalls_Some)

lemma unit_draws_snth: "unit_draws g \<Longrightarrow> 0 \<le> g !! n \<and> g !! n < 1"
  by (simp add: unit_draws_def)

lemma unit_draws_sdrop: "unit_draws g \<Longrightarrow> unit_draws (sdrop k g)"
  by (simp add: unit_draws_def sdrop_snth)

lemma unit_draws_sconst: "0 \<le> r \<Longrightarrow> r < 1 \<Longrightarrow> unit_draws (sconst r)"
  by (simp add: unit_draws_def)

text \<open>A draw scaled into the safe interior stays there.\<close>

lemma scaled_draw_bounds:
  fixes r a e :: real
  assumes "0 \<le> r" and "r < 1" and "2 * a \<le> e"
  shows "a \<le> r * (e - a * 2) + a" and "r * (e - a * 2) + a \<le> e - a"
proof -
  have nonneg: "0 \<le> e - a * 2"
    using assms(3) by simp
  with assms(1) have "0 \<le> r * (e - a * 2)"
    by (rule mult_nonneg_nonneg)
  then show "a \<le> r * (e - a * 2) + a"
    by simp
  have "r * (e - a * 2) \<le> 1 * (e - a * 2)"
    using assms(2) nonneg by (intro mult_right_mono) simp_all
  then show "r * (e - a * 2) + a \<le> e - a"
    by simp
qed

lemma length_colors: "length colors = 10"
  by (simp add: colors_def)

lemma updateBall_spec_step: "updateBall cv b = spec_step (width cv) (height cv) b"
  by (simp add: updateBall_def spec_step_def clamp_def Let_def)

subsection \<open>The code with explicit operations\<close>

text \<open>
  With exact operations it is the code of the first sections.
\<close>

lemma updateBall_fp_exact: "updateBall_fp exact_ops cv b = updateBall cv b"
  by (simp add: updateBall_fp_def updateBall_def exact_ops_def Let_def)

lemma updateBalls_fp_exact: "updateBalls_fp exact_ops st = updateBalls st"
  by (cases "canvasRef st") (simp_all add: updateBalls_fp_def updateBalls_def updateBall_fp_exact)

lemma getRandomColor_fp_exact: "getRandomColor_fp exact_ops g = getRandomColor g"
  by (simp add: getRandomColor_fp_def getRandomColor_def exact_ops_def)

lemma newBall_fp_exact: "newBall_fp exact_ops i cv g = newBall i cv g"
  by (simp add: newBall_fp_def newBall_def getRandomColor_fp_exact) (simp add: exact_ops_def)

lemma updateBalls_fp_nth:
  assumes "canvasRef st = Some cv" and "i < length (ballsRef st)"
  shows "ballsRef (updateBalls_fp ops st) ! i = updateBall_fp ops cv (ballsRef st ! i)"
  using assms by (simp add: updateBalls_fp_def)

lemma newBall_fp_rng: "snd (newBall_fp ops i cv g) = sdrop 5 g"
  by (simp add: newBall_fp_def getRandomColor_fp_def Math_random_def Let_def eval_nat_numeral)

lemma newBall_fp_color:
  "color (fst (newBall_fp ops i cv g)) = fst (getRandomColor_fp ops (sdrop 4 g))"
  by (simp add: newBall_fp_def getRandomColor_fp_def Math_random_def Let_def eval_nat_numeral)

lemma initLoop_fp_eq:
  "initLoop_fp ops i cv balls g =
    (balls @ map (\<lambda>j. fst (newBall_fp ops j cv (sdrop (5 * (j - i)) g))) [i..<BALL_COUNT],
     sdrop (5 * (BALL_COUNT - i)) g)"
proof (induction ops i cv balls g rule: initLoop_fp.induct)
  case (1 ops i cv balls g)
  show ?case
  proof (cases "i < BALL_COUNT")
    case False
    then show ?thesis by (subst initLoop_fp.simps) simp
  next
    case True
    obtain b g' where bg: "newBall_fp ops i cv g = (b, g')"
      by (cases "newBall_fp ops i cv g")
    have g': "g' = sdrop 5 g"
      using newBall_fp_rng [of ops i cv g] bg by simp
    have b: "b = fst (newBall_fp ops i cv g)"
      using bg by simp
    have shift: "sdrop (5 * (j - Suc i)) g' = sdrop (5 * (j - i)) g"
      if "j \<in> set [Suc i..<BALL_COUNT]" for j
    proof -
      from that have "i < j" by simp
      then have "5 + 5 * (j - Suc i) = 5 * (j - i)" by simp
      then show ?thesis unfolding g' by (simp only: sdrop_add)
    qed
    have rest: "sdrop (5 * (BALL_COUNT - Suc i)) g' = sdrop (5 * (BALL_COUNT - i)) g"
    proof -
      from True have "5 + 5 * (BALL_COUNT - Suc i) = 5 * (BALL_COUNT - i)" by simp
      then show ?thesis unfolding g' by (simp only: sdrop_add)
    qed
    have "initLoop_fp ops i cv balls g = initLoop_fp ops (i + 1) cv (balls @ [b]) g'"
      using True bg by (subst initLoop_fp.simps) simp
    also have "\<dots> =
        ((balls @ [b]) @
           map (\<lambda>j. fst (newBall_fp ops j cv (sdrop (5 * (j - (i + 1))) g'))) [i + 1..<BALL_COUNT],
         sdrop (5 * (BALL_COUNT - (i + 1))) g')"
      using "1.IH" [OF True bg [symmetric] refl] .
    also have "map (\<lambda>j. fst (newBall_fp ops j cv (sdrop (5 * (j - (i + 1))) g'))) [i + 1..<BALL_COUNT]
        = map (\<lambda>j. fst (newBall_fp ops j cv (sdrop (5 * (j - i)) g))) [Suc i..<BALL_COUNT]"
      by (rule map_cong) (simp_all add: shift)
    finally show ?thesis
      using True by (simp add: rest b upt_conv_Cons)
  qed
qed

lemma initLoop_fp_exact: "initLoop_fp exact_ops i cv balls g = initLoop i cv balls g"
  by (simp add: initLoop_fp_eq initLoop_eq newBall_fp_exact)

lemma initializeBalls_fp_exact: "initializeBalls_fp exact_ops st g = initializeBalls st g"
  by (cases "canvasRef st") (simp_all add: initializeBalls_fp_def initializeBalls_def initLoop_fp_exact)

lemma initializeBalls_fp_Some:
  assumes "canvasRef st = Some cv"
  shows "initializeBalls_fp ops st g =
    (st\<lparr> ballsRef := map (\<lambda>j. fst (newBall_fp ops j cv (sdrop (5 * j) g))) [0..<BALL_COUNT],
         ballCount := BALL_COUNT \<rparr>,
     sdrop (5 * BALL_COUNT) g)"
  using assms by (simp add: initializeBalls_fp_def initLoop_fp_eq)

subsection \<open>Doubles and rounding to nearest\<close>

lemma is_doubleI:
  "m < (2::nat) ^ 53 \<Longrightarrow> k \<le> (2045::nat) \<Longrightarrow> \<bar>v\<bar> * 2 ^ 1074 = real m * 2 ^ k \<Longrightarrow> is_double v"
  unfolding is_double_def by blast

lemma is_double_zero: "is_double 0"
  by (rule is_doubleI [of 0 0]) simp_all

lemma is_double_quarter: "is_double (1 / 4)"
  by (rule is_doubleI [of 1 1072]) simp_all

lemma is_double_five_halves: "is_double (5 / 2)"
  by (rule is_doubleI [of 5 1073]) simp_all

lemma is_double_seven: "is_double 7"
  by (rule is_doubleI [of 7 1074]) simp_all

lemma is_double_draw_07: "is_double (3152519739159347 / 2 ^ 52)"
  by (rule is_doubleI [of 3152519739159347 1022]) simp_all

lemma is_double_below_ten: "is_double (10 - 1 / 2 ^ 49)"
  by (rule is_doubleI [of 5629499534213119 1025]) simp_all

lemma nearest_double_self: "is_double v \<Longrightarrow> nearest_double v v"
  by (simp add: nearest_double_def)

lemma double_draws_snth:
  "double_draws g \<Longrightarrow> is_double (g !! n) \<and> 0 \<le> g !! n \<and> g !! n < 1"
  by (simp add: double_draws_def)

text \<open>
  The largest double below one is \<open>1 - 2 ^ -53\<close>.
\<close>

lemma double_below_one:
  assumes "is_double r" and "r < 1"
  shows "r \<le> 1 - 1 / 2 ^ 53"
proof (cases "0 \<le> r")
  case False
  then show ?thesis by simp
next
  case True
  from assms(1) obtain m k :: nat
    where m: "m < 2 ^ 53" and k: "k \<le> 2045" and eq: "\<bar>r\<bar> * 2 ^ 1074 = real m * 2 ^ k"
    unfolding is_double_def by blast
  from True eq have req: "r * 2 ^ 1074 = real (m * 2 ^ k)"
    by simp
  have "r * 2 ^ 1074 < 1 * 2 ^ 1074"
    using assms(2) by (intro mult_strict_right_mono) simp_all
  with req have "real (m * 2 ^ k) < real ((2::nat) ^ 1074)"
    by simp
  then have lt: "m * 2 ^ k < (2::nat) ^ 1074"
    by (simp only: of_nat_less_iff)
  have bound: "m * 2 ^ k + 2 ^ 1021 \<le> (2::nat) ^ 1074"
  proof (cases "k \<le> 1021")
    case True
    have "m * 2 ^ k \<le> (2 ^ 53 - 1) * (2::nat) ^ 1021"
    proof (rule mult_le_mono)
      show "m \<le> 2 ^ 53 - 1" using m by simp
      show "(2::nat) ^ k \<le> 2 ^ 1021" using True by (intro power_increasing) simp_all
    qed
    also have "(2 ^ 53 - 1) * (2::nat) ^ 1021 + 2 ^ 1021 = 2 ^ 53 * 2 ^ 1021"
      by (simp add: algebra_simps)
    finally have "m * 2 ^ k + 2 ^ 1021 \<le> (2::nat) ^ 53 * 2 ^ 1021"
      by simp
    also have "(2::nat) ^ 53 * 2 ^ 1021 = 2 ^ 1074"
      by (simp only: power_add [symmetric]) simp
    finally show ?thesis .
  next
    case False
    then have k1021: "1021 \<le> k" by simp
    show ?thesis
    proof (cases "k \<le> 1074")
      case True
      then have split: "(2::nat) ^ 1074 = 2 ^ (1074 - k) * 2 ^ k"
        by (simp add: power_add [symmetric])
      with lt have "m * 2 ^ k < 2 ^ (1074 - k) * (2::nat) ^ k"
        by simp
      then have "m < 2 ^ (1074 - k)"
        by simp
      then have "m + 1 \<le> 2 ^ (1074 - k)"
        by simp
      then have "(m + 1) * 2 ^ k \<le> 2 ^ (1074 - k) * (2::nat) ^ k"
        by (rule mult_le_mono1)
      then have "m * 2 ^ k + 2 ^ k \<le> 2 ^ (1074 - k) * (2::nat) ^ k"
        by (simp add: algebra_simps)
      then have "m * 2 ^ k + 2 ^ k \<le> (2::nat) ^ 1074"
        by (simp only: split)
      moreover have "(2::nat) ^ 1021 \<le> 2 ^ k"
        using k1021 by (intro power_increasing) simp_all
      ultimately show ?thesis
        by linarith
    next
      case False
      then have "(2::nat) ^ 1074 \<le> 2 ^ k"
        by (intro power_increasing) simp_all
      with lt have "m = 0"
        by (cases m) auto
      then show ?thesis
        by simp
    qed
  qed
  then have "real (m * 2 ^ k + 2 ^ 1021) \<le> real ((2::nat) ^ 1074)"
    by (simp only: of_nat_le_iff)
  with req have "r * 2 ^ 1074 + 2 ^ 1021 \<le> (2::real) ^ 1074"
    by simp
  moreover have "(2::real) ^ 1074 = 2 ^ 53 * 2 ^ 1021"
    by (simp only: power_add [symmetric]) simp
  ultimately have "r * (2 ^ 53 * 2 ^ 1021) + 1 * 2 ^ 1021 \<le> (2::real) ^ 53 * 2 ^ 1021"
    by simp
  then have "(r * 2 ^ 53 + 1) * 2 ^ 1021 \<le> (2::real) ^ 53 * 2 ^ 1021"
    by (simp only: distrib_right mult.assoc)
  then have "r * 2 ^ 53 + 1 \<le> (2::real) ^ 53"
    by (simp only: mult_le_cancel_right) simp
  then show ?thesis
    by (simp add: field_simps)
qed

text \<open>
  A product of at most \<open>10 - 10 * 2 ^ -53\<close> is nearer to the double \<open>10 - 2 ^ -49\<close> than
  to any number from ten on, so no nearest double of it reaches ten.
\<close>

lemma nearest_double_below_ten:
  assumes "0 \<le> p" and "p \<le> 10 - 10 / 2 ^ 53" and "nearest_double p d"
  shows "0 \<le> d" and "d < 10"
proof -
  from assms(3) have zero: "\<bar>d - p\<bar> \<le> \<bar>0 - p\<bar>"
    unfolding nearest_double_def using is_double_zero by blast
  from assms(3) have top: "\<bar>d - p\<bar> \<le> \<bar>(10 - 1 / 2 ^ 49) - p\<bar>"
    unfolding nearest_double_def using is_double_below_ten by blast
  from zero assms(1) show "0 \<le> d"
    by simp
  from top assms(2) show "d < 10"
    by simp
qed

lemma getRandomColor_fp_index:
  assumes "is_double (shd g)" and "0 \<le> shd g" and "shd g < 1"
    and "rounds_color_product ops (shd g)"
  shows "0 \<le> \<lfloor>fmul ops (shd g) (real (length colors))\<rfloor>"
    and "\<lfloor>fmul ops (shd g) (real (length colors))\<rfloor> < int (length colors)"
    and "fst (getRandomColor_fp ops g) =
      Some (colors ! nat \<lfloor>fmul ops (shd g) (real (length colors))\<rfloor>)"
    and "fst (getRandomColor_fp ops g) \<in> Some ` set colors"
proof -
  let ?d = "fmul ops (shd g) (real (length colors))"
  have "shd g \<le> 1 - 1 / 2 ^ 53"
    using assms(1,3) by (rule double_below_one)
  then have "shd g * 10 \<le> (1 - 1 / 2 ^ 53) * 10"
    by (rule mult_right_mono) simp
  then have hi: "shd g * 10 \<le> 10 - 10 / 2 ^ 53"
    by (simp add: algebra_simps)
  have lo: "0 \<le> shd g * 10"
    using assms(2) by simp
  have near: "nearest_double (shd g * 10) ?d"
    using assms(4) by (simp add: rounds_color_product_def length_colors)
  have d: "0 \<le> ?d" "?d < 10"
    using nearest_double_below_ten [OF lo hi near] by simp_all
  show k0: "0 \<le> \<lfloor>?d\<rfloor>"
    using d(1) by simp
  show k1: "\<lfloor>?d\<rfloor> < int (length colors)"
    using d(2) by (simp add: length_colors floor_less_iff)
  show eq: "fst (getRandomColor_fp ops g) = Some (colors ! nat \<lfloor>?d\<rfloor>)"
    using k0 k1 by (simp add: getRandomColor_fp_def Math_random_def js_index_def)
  have "nat \<lfloor>?d\<rfloor> < length colors"
    using k0 k1 by linarith
  then show "fst (getRandomColor_fp ops g) \<in> Some ` set colors"
    by (simp add: eq)
qed

text \<open>
  From four on, the doubles are multiples of \<open>2 ^ -50\<close>; so \<open>7\<close> is a nearest double of
  \<open>7 - 2 ^ -51\<close>, which is ten times the double nearest to \<open>0.7\<close>.
\<close>

lemma double_grid_from_four:
  assumes "is_double d" and "4 \<le> d"
  shows "\<exists>n::nat. d * 2 ^ 50 = real n"
proof -
  from assms(1) obtain m k :: nat
    where m: "m < 2 ^ 53" and eq: "\<bar>d\<bar> * 2 ^ 1074 = real m * 2 ^ k"
    unfolding is_double_def by blast
  from assms(2) eq have deq: "d * 2 ^ 1074 = real m * 2 ^ k"
    by simp
  have k: "1024 \<le> k"
  proof (rule ccontr)
    assume "\<not> 1024 \<le> k"
    then have "k \<le> 1023" by simp
    then have "(2::real) ^ k \<le> 2 ^ 1023"
      by (intro power_increasing) simp_all
    moreover have "real m < 2 ^ 53"
      using m by (simp add: of_nat_less_iff [of m "2 ^ 53", where ?'a = real, simplified])
    ultimately have "real m * 2 ^ k < 2 ^ 53 * (2::real) ^ 1023"
      by (intro mult_less_le_imp_less) simp_all
    also have "(2::real) ^ 53 * 2 ^ 1023 = 4 * 2 ^ 1074"
      by simp
    finally have "d * 2 ^ 1074 < 4 * (2::real) ^ 1074"
      by (simp only: deq)
    then have "d < 4"
      by (simp only: mult_less_cancel_right) simp
    with assms(2) show False by simp
  qed
  have "(2::real) ^ 1074 = 2 ^ 50 * 2 ^ 1024"
    by simp
  moreover have "(2::real) ^ k = 2 ^ (k - 1024) * 2 ^ 1024"
    using k by (simp only: power_add [symmetric]) simp
  ultimately have "(d * 2 ^ 50) * 2 ^ 1024 = (real m * 2 ^ (k - 1024)) * (2::real) ^ 1024"
    using deq by (simp only: mult.assoc)
  then have "d * 2 ^ 50 = real m * 2 ^ (k - 1024)"
    by (simp only: mult_cancel_right) simp
  then have "d * 2 ^ 50 = real (m * 2 ^ (k - 1024))"
    by simp
  then show ?thesis ..
qed

lemma nearest_double_seven: "nearest_double (7 - 1 / 2 ^ 51) 7"
  unfolding nearest_double_def
proof (intro conjI allI impI)
  show "is_double 7"
    by (rule is_double_seven)
next
  fix d'
  assume d': "is_double d'"
  show "\<bar>7 - (7 - 1 / 2 ^ 51)\<bar> \<le> \<bar>d' - (7 - 1 / 2 ^ 51)\<bar>"
  proof (rule ccontr)
    assume "\<not> ?thesis"
    then have close: "\<bar>d' - (7 - 1 / 2 ^ 51)\<bar> < 1 / 2 ^ 51"
      by simp
    then have up: "d' - (7 - 1 / 2 ^ 51) < 1 / 2 ^ 51"
      and down: "- (d' - (7 - 1 / 2 ^ 51)) < 1 / 2 ^ 51"
      by (simp_all only: abs_less_iff)
    have half: "(1::real) / 2 ^ 50 = 1 / 2 ^ 51 + 1 / 2 ^ 51"
      by simp
    from down half have lo: "7 - 1 / 2 ^ 50 < d'"
      by linarith
    from up have hi: "d' < 7"
      by linarith
    from lo have "4 \<le> d'"
      by simp
    with d' obtain n :: nat where n: "d' * 2 ^ 50 = real n"
      using double_grid_from_four by blast
    from lo have "(7 - 1 / 2 ^ 50) * 2 ^ 50 < d' * (2::real) ^ 50"
      by (simp only: mult_less_cancel_right) simp
    then have "real (7 * 2 ^ 50 - 1) < real n"
      unfolding n by simp
    then have n_lo: "7 * 2 ^ 50 - 1 < n"
      by (simp only: of_nat_less_iff)
    from hi have "d' * 2 ^ 50 < 7 * (2::real) ^ 50"
      by (simp only: mult_less_cancel_right) simp
    then have "real n < real (7 * 2 ^ 50)"
      unfolding n by simp
    then have "n < 7 * 2 ^ 50"
      by (simp only: of_nat_less_iff)
    with n_lo show False
      by simp
  qed
qed

lemma product_07: "3152519739159347 / 2 ^ 52 * 10 = 7 - 1 / (2::real) ^ 51"
  by simp

section \<open>The claims\<close>

text \<open>
  The step and the initialization do their work only when a canvas is mounted (lines 37
  and 60 return early otherwise), so the theorems about what they compute take the
  mounted canvas \<open>cv\<close> as given.
\<close>

subsection \<open>The simulation step\<close>

text \<open>
  C1. One simulation step computes, for every ball, exactly the algorithm of the
  specification: the coordinates are incremented by the velocity; then, on each axis
  separately, if the incremented coordinate is at most \<open>radius\<close> or at least the extent
  minus \<open>radius\<close>, the velocity component is negated and the coordinate is clamped into
  the interval from \<open>radius\<close> to the extent minus \<open>radius\<close>. The new array is the old
  one mapped ball by ball, so no ball depends on another, and nothing else of the state
  changes.
\<close>

theorem step_computes_algorithm:
  assumes "canvasRef st = Some cv"
  shows "updateBalls st =
    st\<lparr> ballsRef := map (spec_step (width cv) (height cv)) (ballsRef st) \<rparr>"
proof -
  have "map (updateBall cv) (ballsRef st) = map (spec_step (width cv) (height cv)) (ballsRef st)"
    by (rule map_cong) (simp_all add: updateBall_spec_step)
  with assms show ?thesis
    by (simp add: updateBalls_def)
qed

text \<open>
  On a 400 by 300 canvas: a ball that crosses the left wall and one that crosses the
  bottom wall.
\<close>

theorem step_computes_algorithm_witness:
  "updateBalls
     \<lparr> canvasRef = Some \<lparr> width = 400, height = 300 \<rparr>,
       ballsRef =
         [\<lparr> id' = 0, x = 5, y = 150, vx = - 3, vy = 0, radius = 12, color = Some ''#FF6B6B'' \<rparr>,
          \<lparr> id' = 1, x = 100, y = 290, vx = 2, vy = 4, radius = 12, color = Some ''#4ECDC4'' \<rparr>],
       ballCount = 2 \<rparr> =
     \<lparr> canvasRef = Some \<lparr> width = 400, height = 300 \<rparr>,
       ballsRef =
         [\<lparr> id' = 0, x = 12, y = 150, vx = 3, vy = 0, radius = 12, color = Some ''#FF6B6B'' \<rparr>,
          \<lparr> id' = 1, x = 102, y = 288, vx = 2, vy = - 4, radius = 12, color = Some ''#4ECDC4'' \<rparr>],
       ballCount = 2 \<rparr>"
  using step_computes_algorithm
    [of "\<lparr> canvasRef = Some \<lparr> width = 400, height = 300 \<rparr>,
       ballsRef =
         [\<lparr> id' = 0, x = 5, y = 150, vx = - 3, vy = 0, radius = 12, color = Some ''#FF6B6B'' \<rparr>,
          \<lparr> id' = 1, x = 100, y = 290, vx = 2, vy = 4, radius = 12, color = Some ''#4ECDC4'' \<rparr>],
       ballCount = 2 \<rparr>" "\<lparr> width = 400, height = 300 \<rparr>"]
  by (simp add: spec_step_def clamp_def)

text \<open>
  C2. Whatever the position and the velocity of a ball before the step, if the canvas
  is at least two radii wide and high, then after the step the ball lies in the safe
  interior: \<open>radius \<le> x \<le> width - radius\<close> and \<open>radius \<le> y \<le> height - radius\<close>.
\<close>

theorem step_keeps_balls_inside:
  assumes "canvasRef st = Some cv"
    and "b' \<in> set (ballsRef (updateBalls st))"
    and "2 * radius b' \<le> width cv"
    and "2 * radius b' \<le> height cv"
  shows "radius b' \<le> x b' \<and> x b' \<le> width cv - radius b' \<and>
         radius b' \<le> y b' \<and> y b' \<le> height cv - radius b'"
proof -
  from assms(1,2) obtain b where b': "b' = updateBall cv b"
    by (auto simp: updateBalls_Some)
  have r: "radius b' = radius b"
    by (simp add: b' updateBall_frame)
  from assms(3) have "radius b \<le> x b' \<and> x b' \<le> width cv - radius b"
    unfolding r by (simp add: b' updateBall_x)
  moreover from assms(4) have "radius b \<le> y b' \<and> y b' \<le> height cv - radius b"
    unfolding r by (simp add: b' updateBall_y)
  ultimately show ?thesis
    by (simp add: r)
qed

text \<open>
  A ball far outside a 400 by 300 canvas is brought back to the corner \<open>(388, 12)\<close> of
  the safe interior.
\<close>

theorem step_keeps_balls_inside_witness:
  "x (hd (ballsRef (updateBalls
      \<lparr> canvasRef = Some \<lparr> width = 400, height = 300 \<rparr>,
        ballsRef = [\<lparr> id' = 0, x = 1000, y = - 50, vx = 7, vy = - 9, radius = 12, color = None \<rparr>],
        ballCount = 1 \<rparr>))) = 388 \<and>
   y (hd (ballsRef (updateBalls
      \<lparr> canvasRef = Some \<lparr> width = 400, height = 300 \<rparr>,
        ballsRef = [\<lparr> id' = 0, x = 1000, y = - 50, vx = 7, vy = - 9, radius = 12, color = None \<rparr>],
        ballCount = 1 \<rparr>))) = 12"
  using step_keeps_balls_inside
    [of "\<lparr> canvasRef = Some \<lparr> width = 400, height = 300 \<rparr>,
        ballsRef = [\<lparr> id' = 0, x = 1000, y = - 50, vx = 7, vy = - 9, radius = 12, color = None \<rparr>],
        ballCount = 1 \<rparr>" "\<lparr> width = 400, height = 300 \<rparr>"
        "hd (ballsRef (updateBalls
      \<lparr> canvasRef = Some \<lparr> width = 400, height = 300 \<rparr>,
        ballsRef = [\<lparr> id' = 0, x = 1000, y = - 50, vx = 7, vy = - 9, radius = 12, color = None \<rparr>],
        ballCount = 1 \<rparr>))"]
  by (simp add: updateBalls_def updateBall_def)

text \<open>
  C3, as the code has it. The wall test of lines 68 and 73 reads the coordinates that
  the increment of lines 64 and 65 has stored: the sums \<^verbatim>\<open>x + vx\<close> and \<^verbatim>\<open>y + vy\<close> as the
  code's addition returns them. Whatever that addition and the subtraction of the wall
  test return, a ball whose stored sums are strictly interior (\<open>radius\<close> below the sum,
  the sum below the extent minus \<open>radius\<close>, on both axes) ends the step at exactly
  those sums, with its velocity and every other field unchanged.
\<close>

theorem interior_after_increment_moves_freely:
  assumes "canvasRef st = Some cv"
    and "i < length (ballsRef st)"
    and "ballsRef st ! i = b"
    and "radius b < fadd ops (x b) (vx b)"
    and "fadd ops (x b) (vx b) < fsub ops (width cv) (radius b)"
    and "radius b < fadd ops (y b) (vy b)"
    and "fadd ops (y b) (vy b) < fsub ops (height cv) (radius b)"
  shows "ballsRef (updateBalls_fp ops st) ! i =
    b\<lparr> x := fadd ops (x b) (vx b), y := fadd ops (y b) (vy b) \<rparr>"
proof -
  have "ballsRef (updateBalls_fp ops st) ! i = updateBall_fp ops cv b"
    using assms(1-3) by (simp add: updateBalls_fp_nth)
  also have "\<dots> = b\<lparr> x := fadd ops (x b) (vx b), y := fadd ops (y b) (vy b) \<rparr>"
    using assms(4-7) by (simp add: updateBall_fp_def Let_def)
  finally show ?thesis .
qed

text \<open>
  On a 400 by 300 canvas. With exact operations a ball moves from \<open>(200, 150)\<close> to
  \<open>(197, 151)\<close>. With an addition that rounds, the ball at \<open>(200, 150)\<close> with velocity
  \<open>(2 ^ -52, 1)\<close> stays at \<open>x = 200\<close>, the stored sum, and goes to \<open>y = 151\<close>.
\<close>

theorem interior_after_increment_moves_freely_witness:
  "ballsRef (updateBalls_fp exact_ops
      \<lparr> canvasRef = Some \<lparr> width = 400, height = 300 \<rparr>,
        ballsRef =
          [\<lparr> id' = 0, x = 200, y = 150, vx = - 3, vy = 1, radius = 12, color = Some ''#FF6B6B'' \<rparr>],
        ballCount = 1 \<rparr>) ! 0 =
     \<lparr> id' = 0, x = 197, y = 151, vx = - 3, vy = 1, radius = 12, color = Some ''#FF6B6B'' \<rparr> \<and>
   ballsRef (updateBalls_fp \<lparr> fadd = absorbing_add, fsub = (-), fmul = (*) \<rparr>
      \<lparr> canvasRef = Some \<lparr> width = 400, height = 300 \<rparr>,
        ballsRef =
          [\<lparr> id' = 0, x = 200, y = 150, vx = 1 / 2 ^ 52, vy = 1, radius = 12, color = None \<rparr>],
        ballCount = 1 \<rparr>) ! 0 =
     \<lparr> id' = 0, x = 200, y = 151, vx = 1 / 2 ^ 52, vy = 1, radius = 12, color = None \<rparr>"
proof
  show "ballsRef (updateBalls_fp exact_ops
      \<lparr> canvasRef = Some \<lparr> width = 400, height = 300 \<rparr>,
        ballsRef =
          [\<lparr> id' = 0, x = 200, y = 150, vx = - 3, vy = 1, radius = 12, color = Some ''#FF6B6B'' \<rparr>],
        ballCount = 1 \<rparr>) ! 0 =
     \<lparr> id' = 0, x = 197, y = 151, vx = - 3, vy = 1, radius = 12, color = Some ''#FF6B6B'' \<rparr>"
    using interior_after_increment_moves_freely
      [of "\<lparr> canvasRef = Some \<lparr> width = 400, height = 300 \<rparr>,
        ballsRef =
          [\<lparr> id' = 0, x = 200, y = 150, vx = - 3, vy = 1, radius = 12, color = Some ''#FF6B6B'' \<rparr>],
        ballCount = 1 \<rparr>" "\<lparr> width = 400, height = 300 \<rparr>" 0
        "\<lparr> id' = 0, x = 200, y = 150, vx = - 3, vy = 1, radius = 12, color = Some ''#FF6B6B'' \<rparr>"
        exact_ops]
    by (simp add: exact_ops_def)
  show "ballsRef (updateBalls_fp \<lparr> fadd = absorbing_add, fsub = (-), fmul = (*) \<rparr>
      \<lparr> canvasRef = Some \<lparr> width = 400, height = 300 \<rparr>,
        ballsRef =
          [\<lparr> id' = 0, x = 200, y = 150, vx = 1 / 2 ^ 52, vy = 1, radius = 12, color = None \<rparr>],
        ballCount = 1 \<rparr>) ! 0 =
     \<lparr> id' = 0, x = 200, y = 151, vx = 1 / 2 ^ 52, vy = 1, radius = 12, color = None \<rparr>"
    using interior_after_increment_moves_freely
      [of "\<lparr> canvasRef = Some \<lparr> width = 400, height = 300 \<rparr>,
        ballsRef =
          [\<lparr> id' = 0, x = 200, y = 150, vx = 1 / 2 ^ 52, vy = 1, radius = 12, color = None \<rparr>],
        ballCount = 1 \<rparr>" "\<lparr> width = 400, height = 300 \<rparr>" 0
        "\<lparr> id' = 0, x = 200, y = 150, vx = 1 / 2 ^ 52, vy = 1, radius = 12, color = None \<rparr>"
        "\<lparr> fadd = absorbing_add, fsub = (-), fmul = (*) \<rparr>"]
    by (simp add: absorbing_add_def)
qed

text \<open>
  Being strictly interior before the step is not enough. On a 400 by 300 canvas the
  ball of radius 12 at \<open>(13, 150)\<close> is strictly interior (\<open>12 < 13 < 388\<close> and
  \<open>12 < 150 < 288\<close>); with velocity \<open>(-3, 0)\<close> a free move would end at \<open>x = 10\<close> with
  \<open>vx = -3\<close>, but the step ends at \<open>x = 12\<close> with \<open>vx = 3\<close>.
\<close>

theorem interior_before_step_counterexample:
  "ballsRef (updateBalls
      \<lparr> canvasRef = Some \<lparr> width = 400, height = 300 \<rparr>,
        ballsRef =
          [\<lparr> id' = 0, x = 13, y = 150, vx = - 3, vy = 0, radius = 12, color = Some ''#FF6B6B'' \<rparr>],
        ballCount = 1 \<rparr>) =
     [\<lparr> id' = 0, x = 12, y = 150, vx = 3, vy = 0, radius = 12, color = Some ''#FF6B6B'' \<rparr>]"
  by (simp add: updateBalls_def updateBall_def)

text \<open>
  C4. A ball whose incremented \<open>x\<close> is at or past the left wall
  (\<open>x + vx \<le> radius\<close>) ends the step with \<open>vx\<close> negated and \<open>x\<close> equal to \<open>radius\<close>.
  Neither the sign of \<open>vx\<close>, nor the position on the other axis, nor the size of the
  canvas matters; in particular this covers a ball at \<open>x = radius\<close> with \<open>vx < 0\<close>.
\<close>

theorem left_wall_reflects:
  assumes "canvasRef st = Some cv"
    and "i < length (ballsRef st)"
    and "ballsRef st ! i = b"
    and "x b + vx b \<le> radius b"
  shows "vx (ballsRef (updateBalls st) ! i) = - vx b \<and>
         x (ballsRef (updateBalls st) ! i) = radius b"
proof -
  have "ballsRef (updateBalls st) ! i = updateBall cv b"
    using assms(1-3) by (simp add: updateBalls_nth)
  then show ?thesis
    using assms(4) by (simp add: updateBall_x updateBall_vx)
qed

text \<open>
  The scenario of the specification: width 400, height 300, radius 12, a ball at
  \<open>(5, 150)\<close> with velocity \<open>(-3, 0)\<close> ends the step with \<open>vx = 3\<close> and \<open>x = 12\<close>.
\<close>

theorem left_wall_reflects_witness:
  "vx (ballsRef (updateBalls
      \<lparr> canvasRef = Some \<lparr> width = 400, height = 300 \<rparr>,
        ballsRef = [\<lparr> id' = 0, x = 5, y = 150, vx = - 3, vy = 0, radius = 12, color = None \<rparr>],
        ballCount = 1 \<rparr>) ! 0) = 3 \<and>
   x (ballsRef (updateBalls
      \<lparr> canvasRef = Some \<lparr> width = 400, height = 300 \<rparr>,
        ballsRef = [\<lparr> id' = 0, x = 5, y = 150, vx = - 3, vy = 0, radius = 12, color = None \<rparr>],
        ballCount = 1 \<rparr>) ! 0) = 12"
  using left_wall_reflects
    [of "\<lparr> canvasRef = Some \<lparr> width = 400, height = 300 \<rparr>,
        ballsRef = [\<lparr> id' = 0, x = 5, y = 150, vx = - 3, vy = 0, radius = 12, color = None \<rparr>],
        ballCount = 1 \<rparr>" "\<lparr> width = 400, height = 300 \<rparr>" 0
        "\<lparr> id' = 0, x = 5, y = 150, vx = - 3, vy = 0, radius = 12, color = None \<rparr>"]
  by simp

text \<open>
  C7. On a canvas narrower than two radii every ball meets the wall test on \<open>x\<close>: its
  \<open>vx\<close> is negated and its \<open>x\<close> becomes \<open>radius\<close>, the same point for every ball of
  that radius, wherever it was. The same holds for \<open>y\<close> on a canvas lower than two
  radii. The step has no failing operation (it is a total function of the state) and
  returns an array of the same length.
\<close>

theorem narrow_canvas_single_point:
  assumes "canvasRef st = Some cv"
    and "i < length (ballsRef st)"
    and "ballsRef st ! i = b"
  shows "(width cv < 2 * radius b \<longrightarrow>
            x (ballsRef (updateBalls st) ! i) = radius b \<and>
            vx (ballsRef (updateBalls st) ! i) = - vx b) \<and>
         (height cv < 2 * radius b \<longrightarrow>
            y (ballsRef (updateBalls st) ! i) = radius b \<and>
            vy (ballsRef (updateBalls st) ! i) = - vy b) \<and>
         length (ballsRef (updateBalls st)) = length (ballsRef st)"
proof -
  have step: "ballsRef (updateBalls st) ! i = updateBall cv b"
    using assms by (simp add: updateBalls_nth)
  have "x (updateBall cv b) = radius b \<and> vx (updateBall cv b) = - vx b"
    if "width cv < 2 * radius b"
    using that by (auto simp: updateBall_x updateBall_vx)
  moreover have "y (updateBall cv b) = radius b \<and> vy (updateBall cv b) = - vy b"
    if "height cv < 2 * radius b"
    using that by (auto simp: updateBall_y updateBall_vy)
  moreover have "length (ballsRef (updateBalls st)) = length (ballsRef st)"
    using assms(1) by (simp add: updateBalls_Some)
  ultimately show ?thesis
    by (simp add: step)
qed

text \<open>
  On a 20 by 10 canvas two balls of radius 12, one far to the right and one far to the
  left, both end at \<open>(12, 12)\<close>.
\<close>

theorem narrow_canvas_single_point_witness:
  "ballsRef (updateBalls
      \<lparr> canvasRef = Some \<lparr> width = 20, height = 10 \<rparr>,
        ballsRef =
          [\<lparr> id' = 0, x = 100, y = 150, vx = 1, vy = 2, radius = 12, color = None \<rparr>,
           \<lparr> id' = 1, x = - 40, y = 3, vx = - 1, vy = 0, radius = 12, color = None \<rparr>],
        ballCount = 2 \<rparr>) =
     [\<lparr> id' = 0, x = 12, y = 12, vx = - 1, vy = - 2, radius = 12, color = None \<rparr>,
      \<lparr> id' = 1, x = 12, y = 12, vx = 1, vy = 0, radius = 12, color = None \<rparr>]"
proof -
  let ?b0 = "\<lparr> id' = 0, x = 100, y = 150, vx = 1, vy = 2, radius = 12, color = None \<rparr>"
  let ?b1 = "\<lparr> id' = 1, x = - 40, y = 3, vx = - 1, vy = 0, radius = 12, color = None \<rparr>"
  let ?cv = "\<lparr> width = 20, height = 10 \<rparr>"
  let ?st = "\<lparr> canvasRef = Some ?cv, ballsRef = [?b0, ?b1], ballCount = 2 \<rparr>"
  have "x (ballsRef (updateBalls ?st) ! 0) = 12"
    using narrow_canvas_single_point [of ?st ?cv 0 ?b0] by simp
  then show ?thesis
    by (simp add: updateBalls_def updateBall_def)
qed

text \<open>
  C8. The step leaves the \<^verbatim>\<open>id\<close>, the \<open>radius\<close> and the \<open>color\<close> of every ball as
  they were, ball by ball and in the same order; the canvas reference and the ball
  count are unchanged as well. Only \<open>x\<close>, \<open>y\<close>, \<open>vx\<close> and \<open>vy\<close> may change.
\<close>

theorem step_frame:
  "map id' (ballsRef (updateBalls st)) = map id' (ballsRef st) \<and>
   map radius (ballsRef (updateBalls st)) = map radius (ballsRef st) \<and>
   map color (ballsRef (updateBalls st)) = map color (ballsRef st) \<and>
   canvasRef (updateBalls st) = canvasRef st \<and>
   ballCount (updateBalls st) = ballCount st"
  by (cases "canvasRef st") (simp_all add: updateBalls_def updateBall_frame comp_def)

text \<open>
  C9. The step preserves the absolute value of each velocity component of every ball:
  a reflection only flips a sign.
\<close>

theorem step_preserves_speed:
  "map (\<lambda>b. \<bar>vx b\<bar>) (ballsRef (updateBalls st)) = map (\<lambda>b. \<bar>vx b\<bar>) (ballsRef st) \<and>
   map (\<lambda>b. \<bar>vy b\<bar>) (ballsRef (updateBalls st)) = map (\<lambda>b. \<bar>vy b\<bar>) (ballsRef st)"
  by (cases "canvasRef st") (simp_all add: updateBalls_def updateBall_vx updateBall_vy comp_def)

subsection \<open>Initialization\<close>

text \<open>
  C5. Initialization produces exactly \<open>BALL_COUNT\<close> balls, whatever the draws and the
  size of the canvas, and records that count. If moreover every draw lies in
  \<open>[0, 1)\<close> and the canvas is at least two radii wide and high, every ball has the
  configured radius and lies in the safe interior.
\<close>

theorem initializeBalls_count_and_bounds:
  assumes "canvasRef st = Some cv"
  shows "length (ballsRef (fst (initializeBalls st g))) = BALL_COUNT \<and>
         ballCount (fst (initializeBalls st g)) = BALL_COUNT \<and>
         (unit_draws g \<and> 2 * BALL_RADIUS \<le> width cv \<and> 2 * BALL_RADIUS \<le> height cv \<longrightarrow>
           (\<forall>b \<in> set (ballsRef (fst (initializeBalls st g))).
              radius b = BALL_RADIUS \<and>
              BALL_RADIUS \<le> x b \<and> x b \<le> width cv - BALL_RADIUS \<and>
              BALL_RADIUS \<le> y b \<and> y b \<le> height cv - BALL_RADIUS))"
proof (intro conjI impI ballI)
  show "length (ballsRef (fst (initializeBalls st g))) = BALL_COUNT"
    using assms by (simp add: initializeBalls_Some)
  show "ballCount (fst (initializeBalls st g)) = BALL_COUNT"
    using assms by (simp add: initializeBalls_Some)
next
  fix b
  assume ok: "unit_draws g \<and> 2 * BALL_RADIUS \<le> width cv \<and> 2 * BALL_RADIUS \<le> height cv"
    and "b \<in> set (ballsRef (fst (initializeBalls st g)))"
  then obtain j where b: "b = fst (newBall j cv (sdrop (5 * j) g))"
    using assms by (auto simp: initializeBalls_Some)
  from ok have d0: "0 \<le> sdrop (5 * j) g !! 0" "sdrop (5 * j) g !! 0 < 1"
    and d1: "0 \<le> sdrop (5 * j) g !! 1" "sdrop (5 * j) g !! 1 < 1"
    using unit_draws_snth [OF unit_draws_sdrop, of g "5 * j"] by blast+
  show "radius b = BALL_RADIUS"
    by (simp add: b newBall_fields)
  show "BALL_RADIUS \<le> x b"
    unfolding b newBall_fields using d0 ok by (intro scaled_draw_bounds) simp_all
  show "x b \<le> width cv - BALL_RADIUS"
    unfolding b newBall_fields using d0 ok by (intro scaled_draw_bounds) simp_all
  show "BALL_RADIUS \<le> y b"
    unfolding b newBall_fields using d1 ok by (intro scaled_draw_bounds) simp_all
  show "y b \<le> height cv - BALL_RADIUS"
    unfolding b newBall_fields using d1 ok by (intro scaled_draw_bounds) simp_all
qed

text \<open>
  With every draw equal to a quarter on a 400 by 300 canvas: twenty balls, and the
  eighth of them has its \<open>x\<close> between 12 and 388.
\<close>

theorem initializeBalls_count_and_bounds_witness:
  "length (ballsRef (fst (initializeBalls
      \<lparr> canvasRef = Some \<lparr> width = 400, height = 300 \<rparr>, ballsRef = [], ballCount = 0 \<rparr>
      (sconst (1 / 4))))) = 20 \<and>
   12 \<le> x (ballsRef (fst (initializeBalls
      \<lparr> canvasRef = Some \<lparr> width = 400, height = 300 \<rparr>, ballsRef = [], ballCount = 0 \<rparr>
      (sconst (1 / 4)))) ! 7) \<and>
   x (ballsRef (fst (initializeBalls
      \<lparr> canvasRef = Some \<lparr> width = 400, height = 300 \<rparr>, ballsRef = [], ballCount = 0 \<rparr>
      (sconst (1 / 4)))) ! 7) \<le> 388"
proof -
  let ?st = "\<lparr> canvasRef = Some \<lparr> width = 400, height = 300 \<rparr>, ballsRef = [], ballCount = 0 \<rparr>"
  let ?cv = "\<lparr> width = 400, height = 300 \<rparr>"
  let ?g = "sconst (1 / 4) :: rng"
  have draws: "unit_draws ?g"
    by (simp add: unit_draws_sconst)
  have cv: "canvasRef ?st = Some ?cv"
    by simp
  note fact = initializeBalls_count_and_bounds [OF cv, of ?g]
  from fact have len: "length (ballsRef (fst (initializeBalls ?st ?g))) = 20"
    by (simp add: BALL_COUNT_def)
  then have "ballsRef (fst (initializeBalls ?st ?g)) ! 7 \<in> set (ballsRef (fst (initializeBalls ?st ?g)))"
    by (intro nth_mem) simp
  with fact draws
  have "BALL_RADIUS \<le> x (ballsRef (fst (initializeBalls ?st ?g)) ! 7) \<and>
        x (ballsRef (fst (initializeBalls ?st ?g)) ! 7) \<le> width ?cv - BALL_RADIUS"
    by (simp add: BALL_RADIUS_def)
  with len show ?thesis
    by (simp add: BALL_RADIUS_def)
qed

text \<open>
  C6, as the code has it. Lines 46 and 47 compute \<open>(draw - 0.5) * 2\<close> and nothing
  excludes the draw \<open>0.5\<close>. The velocity component \<open>vx\<close> of ball \<open>i\<close> comes from draw
  number \<open>5 * i + 2\<close> and \<open>vy\<close> from draw number \<open>5 * i + 3\<close>, and the component is zero
  exactly when that draw is one half. So no initial velocity component is zero as long
  as no velocity draw is one half.
\<close>

theorem zero_velocity_iff_half_draw:
  assumes "canvasRef st = Some cv" and "i < BALL_COUNT"
  shows "(vx (ballsRef (fst (initializeBalls st g)) ! i) = 0 \<longleftrightarrow> g !! (5 * i + 2) = 1 / 2) \<and>
         (vy (ballsRef (fst (initializeBalls st g)) ! i) = 0 \<longleftrightarrow> g !! (5 * i + 3) = 1 / 2)"
  using assms
  by (simp add: initializeBalls_nth newBall_fields sdrop_snth SPEED_MULTIPLIER_def)

text \<open>
  With every draw equal to a quarter the first ball has both velocity components
  different from zero.
\<close>

theorem zero_velocity_iff_half_draw_witness:
  "vx (ballsRef (fst (initializeBalls
      \<lparr> canvasRef = Some \<lparr> width = 400, height = 300 \<rparr>, ballsRef = [], ballCount = 0 \<rparr>
      (sconst (1 / 4)))) ! 0) \<noteq> 0 \<and>
   vy (ballsRef (fst (initializeBalls
      \<lparr> canvasRef = Some \<lparr> width = 400, height = 300 \<rparr>, ballsRef = [], ballCount = 0 \<rparr>
      (sconst (1 / 4)))) ! 0) \<noteq> 0"
  using zero_velocity_iff_half_draw
    [of "\<lparr> canvasRef = Some \<lparr> width = 400, height = 300 \<rparr>, ballsRef = [], ballCount = 0 \<rparr>"
        "\<lparr> width = 400, height = 300 \<rparr>" 0 "sconst (1 / 4)"]
  by (simp add: BALL_COUNT_def)

text \<open>
  A generator whose draws are all one half is a legal one (one half lies in
  \<open>[0, 1)\<close>), and the first ball it produces has \<open>vx = 0\<close>.
\<close>

theorem zero_velocity_counterexample:
  "unit_draws (sconst (1 / 2)) \<and>
   vx (ballsRef (fst (initializeBalls
      \<lparr> canvasRef = Some \<lparr> width = 400, height = 300 \<rparr>, ballsRef = [], ballCount = 0 \<rparr>
      (sconst (1 / 2)))) ! 0) = 0"
  by (simp add: unit_draws_sconst initializeBalls_nth newBall_fields BALL_COUNT_def)

text \<open>
  C10. The color picker multiplies a draw by the length of the palette, which has ten
  entries, and floors the product the code's multiplication returns. For a draw that is
  a double in \<open>[0, 1)\<close> and a product that is a nearest double of the exact one, the
  index lies within the bounds of the palette and the picker returns the palette entry
  at that index, never \<^verbatim>\<open>undefined\<close>. Hence, when this holds of every draw, the color of
  every initialized ball is a palette member.
\<close>

theorem color_picker_in_palette:
  "(is_double (shd g) \<and> 0 \<le> shd g \<and> shd g < 1 \<and> rounds_color_product ops (shd g) \<longrightarrow>
      0 \<le> \<lfloor>fmul ops (shd g) (real (length colors))\<rfloor> \<and>
      \<lfloor>fmul ops (shd g) (real (length colors))\<rfloor> < int (length colors) \<and>
      fst (getRandomColor_fp ops g) =
        Some (colors ! nat \<lfloor>fmul ops (shd g) (real (length colors))\<rfloor>) \<and>
      fst (getRandomColor_fp ops g) \<in> Some ` set colors) \<and>
   length colors = 10 \<and>
   (canvasRef st = Some cv \<and> double_draws g' \<and> (\<forall>n. rounds_color_product ops (g' !! n)) \<longrightarrow>
      (\<forall>b \<in> set (ballsRef (fst (initializeBalls_fp ops st g'))). color b \<in> Some ` set colors))"
proof (intro conjI impI ballI)
  assume r: "is_double (shd g) \<and> 0 \<le> shd g \<and> shd g < 1 \<and> rounds_color_product ops (shd g)"
  from r show "0 \<le> \<lfloor>fmul ops (shd g) (real (length colors))\<rfloor>"
    using getRandomColor_fp_index(1) [of g ops] by simp
  from r show "\<lfloor>fmul ops (shd g) (real (length colors))\<rfloor> < int (length colors)"
    using getRandomColor_fp_index(2) [of g ops] by simp
  from r show "fst (getRandomColor_fp ops g) =
      Some (colors ! nat \<lfloor>fmul ops (shd g) (real (length colors))\<rfloor>)"
    using getRandomColor_fp_index(3) [of g ops] by simp
  from r show "fst (getRandomColor_fp ops g) \<in> Some ` set colors"
    using getRandomColor_fp_index(4) [of g ops] by simp
next
  show "length colors = 10"
    by (rule length_colors)
next
  fix b
  assume ok: "canvasRef st = Some cv \<and> double_draws g' \<and> (\<forall>n. rounds_color_product ops (g' !! n))"
    and "b \<in> set (ballsRef (fst (initializeBalls_fp ops st g')))"
  then obtain j where b: "b = fst (newBall_fp ops j cv (sdrop (5 * j) g'))"
    by (auto simp: initializeBalls_fp_Some)
  let ?g = "sdrop 4 (sdrop (5 * j) g')"
  have hd: "shd ?g = g' !! (5 * j + 4)"
    by simp
  have "is_double (shd ?g)" "0 \<le> shd ?g" "shd ?g < 1"
    using ok double_draws_snth [of g' "5 * j + 4"] unfolding hd by simp_all
  moreover have "rounds_color_product ops (shd ?g)"
    using ok unfolding hd by simp
  ultimately have "fst (getRandomColor_fp ops ?g) \<in> Some ` set colors"
    by (rule getRandomColor_fp_index(4))
  then show "color b \<in> Some ` set colors"
    by (simp only: b newBall_fp_color)
qed

text \<open>
  The draw \<open>3152519739159347 / 2 ^ 52\<close> is the double nearest to \<open>0.7\<close>. Ten times it
  is \<open>7 - 2 ^ -51\<close>, the multiplication rounds that to \<open>7\<close>, and the picker returns
  entry 7 of the palette. The draw one quarter, whose product is exact, picks entry 2.
\<close>

theorem color_picker_in_palette_witness:
  "fst (getRandomColor_fp \<lparr> fadd = (+), fsub = (-), fmul = half_way_mul \<rparr>
      (sconst (3152519739159347 / 2 ^ 52))) = Some ''#5F27CD'' \<and>
   fst (getRandomColor_fp exact_ops (sconst (1 / 4))) = Some ''#45B7D1''"
proof
  let ?ops = "\<lparr> fadd = (+), fsub = (-), fmul = half_way_mul \<rparr>"
  let ?r = "3152519739159347 / 2 ^ 52 :: real"
  have mul: "fmul ?ops ?r (real (length colors)) = 7"
    by (simp add: half_way_mul_def length_colors)
  have "rounds_color_product ?ops ?r"
    unfolding rounds_color_product_def mul
    using nearest_double_seven by (simp only: length_colors product_07 of_nat_numeral)
  moreover have "is_double ?r" "0 \<le> ?r" "?r < 1"
    using is_double_draw_07 by simp_all
  ultimately have "fst (getRandomColor_fp ?ops (sconst ?r)) =
      Some (colors ! nat \<lfloor>fmul ?ops ?r (real (length colors))\<rfloor>)"
    using color_picker_in_palette [of "sconst ?r" ?ops] by simp
  then show "fst (getRandomColor_fp ?ops (sconst ?r)) = Some ''#5F27CD''"
    unfolding mul by (simp add: colors_def)
next
  have "rounds_color_product exact_ops (1 / 4)"
    using nearest_double_self [OF is_double_five_halves]
    by (simp add: rounds_color_product_def exact_ops_def length_colors)
  then show "fst (getRandomColor_fp exact_ops (sconst (1 / 4))) = Some ''#45B7D1''"
    using color_picker_in_palette [of "sconst (1 / 4)" exact_ops] is_double_quarter
    by (simp add: colors_def exact_ops_def)
qed

end
